theory Spec2Isabelle
  imports
    Complex_Main
    "HOL-Library.Sublist"
    "HOL-Library.Char_ord"
    "HOL-Library.List_Lexorder"
    "HOL-Library.Product_Lexorder"
begin

section \<open>Superstore dashboard: the filter-and-aggregate pipeline\<close>

text \<open>
  The development embeds the data pipeline of \<^verbatim>\<open>streamlit_dashboards.py\<close>: the loader
  \<^verbatim>\<open>load_data\<close>, the sidebar filter that produces \<^verbatim>\<open>filtered_df\<close>, the five key metrics
  and the grouped tables behind the charts. Rendering (plotly, streamlit widgets, CSS) is
  left out; what the script prints with \<^verbatim>\<open>st.error\<close> is kept as a list of messages.

  Conventions of the embedding.
  \<^item> A data frame is the list of its rows, in index order; a column is the list of one
    field of every row; a boolean mask is a \<open>bool list\<close> of the same length.
  \<^item> A pandas timestamp (\<^verbatim>\<open>datetime64[ns]\<close>) is the integer number of nanoseconds since
    1970-01-01; the calendar is the proleptic Gregorian one.
  \<^item> \<^verbatim>\<open>Sales\<close>, \<^verbatim>\<open>Profit\<close> and \<^verbatim>\<open>Discount\<close> are binary floating-point numbers in pandas.
    They are taken here as exact rationals: sums and products do not round. The one
    place where the special values of the floating-point format decide a result is a
    division by zero, which numpy answers with \<^verbatim>\<open>nan\<close> or an infinity (and a warning)
    instead of raising; type \<open>fval\<close> below keeps these values apart.
    Where the rounding of the sums decides a claim (the totals of the groups against the
    total of the frame), the sums are modelled a second time with float64 rounding.
  \<^item> Categorical cells are strings; missing cells are outside the model.
\<close>

subsection \<open>Data model\<close>

type_synonym timestamp = int

definition NS_PER_DAY :: int where
  "NS_PER_DAY = 86400 * 1000000000"

text \<open>One line of the data frame after loading (the columns the pipeline reads).\<close>

record row =
  order_id :: string
  customer_name :: string
  order_date :: timestamp
  ship_date :: timestamp
  processing_time :: int
  category :: string
  sub_category :: string
  region :: string
  state :: string
  ship_mode :: string
  segment :: string
  sales :: rat
  profit :: rat
  quantity :: int
  discount :: rat

text \<open>
  The values the sidebar hands to the filter: the two dates (already converted with
  \<^verbatim>\<open>pd.to_datetime\<close>) and, for each of the six checkbox groups, the list of the values
  whose checkbox is ticked.
\<close>

record filter_spec =
  start_date :: timestamp
  end_date :: timestamp
  selected_categories :: "string list"
  selected_subcategories :: "string list"
  selected_regions :: "string list"
  selected_states :: "string list"
  selected_ship_modes :: "string list"
  selected_segments :: "string list"

subsection \<open>Calendar\<close>

text \<open>
  Day number of a civil date and back (days since 1970-01-01, proleptic Gregorian
  calendar), by the usual era computation: a year starts on 1 March, an era is 400 years
  or 146097 days.
\<close>

definition days_from_civil :: "int \<Rightarrow> int \<Rightarrow> int \<Rightarrow> int" where
  "days_from_civil y m d =
     (let y' = (if m \<le> 2 then y - 1 else y);
          era = y' div 400;
          yoe = y' - era * 400;
          doy = (153 * (if m > 2 then m - 3 else m + 9) + 2) div 5 + d - 1;
          doe = yoe * 365 + yoe div 4 - yoe div 100 + doy
      in era * 146097 + doe - 719468)"

definition civil_from_days :: "int \<Rightarrow> int \<times> int \<times> int" where
  "civil_from_days z =
     (let z' = z + 719468;
          era = z' div 146097;
          doe = z' - era * 146097;
          yoe = (doe - doe div 1460 + doe div 36524 - doe div 146096) div 365;
          doy = doe - (365 * yoe + yoe div 4 - yoe div 100);
          mp = (5 * doy + 2) div 153;
          d = doy - (153 * mp + 2) div 5 + 1;
          m = (if mp < 10 then mp + 3 else mp - 9);
          y = yoe + era * 400
      in (if m \<le> 2 then y + 1 else y, m, d))"

definition is_leap :: "int \<Rightarrow> bool" where
  "is_leap y = (y mod 4 = 0 \<and> (y mod 100 \<noteq> 0 \<or> y mod 400 = 0))"

definition days_in_month :: "int \<Rightarrow> int \<Rightarrow> int" where
  "days_in_month y m =
     (if m = 2 then (if is_leap y then 29 else 28)
      else if m = 4 \<or> m = 6 \<or> m = 9 \<or> m = 11 then 30 else 31)"

definition valid_civil :: "int \<times> int \<times> int \<Rightarrow> bool" where
  "valid_civil c =
     (case c of (y, m, d) \<Rightarrow> 1 \<le> m \<and> m \<le> 12 \<and> 1 \<le> d \<and> d \<le> days_in_month y m)"

text \<open>The timestamp of midnight of a civil date.\<close>

definition midnight :: "int \<Rightarrow> int \<Rightarrow> int \<Rightarrow> timestamp" where
  "midnight y m d = days_from_civil y m d * NS_PER_DAY"

text \<open>The day number of a date given as year, month and day.\<close>

definition day_number :: "int \<times> int \<times> int \<Rightarrow> int" where
  "day_number c = (case c of (y, m, d) \<Rightarrow> days_from_civil y m d)"

subsection \<open>Filter engine (lines 146-156)\<close>

text \<open>
  The script builds one boolean column per condition, joins them with \<^verbatim>\<open>&\<close> (left
  associative) and indexes the frame with the result.
\<close>

definition col :: "(row \<Rightarrow> 'a) \<Rightarrow> row list \<Rightarrow> 'a list" where
  "col f df = map f df"

definition ge_mask :: "timestamp list \<Rightarrow> timestamp \<Rightarrow> bool list" where
  "ge_mask c t = map (\<lambda>v. v \<ge> t) c"

definition le_mask :: "timestamp list \<Rightarrow> timestamp \<Rightarrow> bool list" where
  "le_mask c t = map (\<lambda>v. v \<le> t) c"

definition isin :: "'a list \<Rightarrow> 'a list \<Rightarrow> bool list" where
  "isin c vals = map (\<lambda>v. v \<in> set vals) c"

definition mask_and :: "bool list \<Rightarrow> bool list \<Rightarrow> bool list" where
  "mask_and a b = map (\<lambda>(x, y). x \<and> y) (zip a b)"

definition select_rows :: "'a list \<Rightarrow> bool list \<Rightarrow> 'a list" where
  "select_rows df bs = map fst (filter snd (zip df bs))"

definition apply_filters :: "row list \<Rightarrow> filter_spec \<Rightarrow> row list" where
  "apply_filters df spec =
     select_rows df
       (mask_and (mask_and (mask_and (mask_and (mask_and (mask_and (mask_and
          (ge_mask (col order_date df) (start_date spec))
          (le_mask (col order_date df) (end_date spec)))
          (isin (col category df) (selected_categories spec)))
          (isin (col region df) (selected_regions spec)))
          (isin (col ship_mode df) (selected_ship_modes spec)))
          (isin (col state df) (selected_states spec)))
          (isin (col segment df) (selected_segments spec)))
          (isin (col sub_category df) (selected_subcategories spec)))"

text \<open>The row-wise reading of the same filter: the condition one row has to meet.\<close>

definition passes :: "filter_spec \<Rightarrow> row \<Rightarrow> bool" where
  "passes spec r =
     (start_date spec \<le> order_date r \<and> order_date r \<le> end_date spec \<and>
      category r \<in> set (selected_categories spec) \<and>
      sub_category r \<in> set (selected_subcategories spec) \<and>
      region r \<in> set (selected_regions spec) \<and>
      state r \<in> set (selected_states spec) \<and>
      ship_mode r \<in> set (selected_ship_modes spec) \<and>
      segment r \<in> set (selected_segments spec))"

subsection \<open>Division of floating-point numbers\<close>

text \<open>
  The result of a floating-point division: a finite number, an infinity or \<^verbatim>\<open>nan\<close>.
  numpy divides by zero without raising: \<^verbatim>\<open>0/0\<close> is \<^verbatim>\<open>nan\<close> and \<^verbatim>\<open>x/0\<close> is the infinity
  of the sign of \<^verbatim>\<open>x\<close> (the sums of this script are never the negative zero unless a
  cell is). Finite results are exact in this model.
\<close>

datatype fval = Fin rat | PosInf | NegInf | NaN

definition np_divide :: "rat \<Rightarrow> rat \<Rightarrow> fval" where
  "np_divide a b =
     (if b \<noteq> 0 then Fin (a / b)
      else if a = 0 then NaN
      else if a > 0 then PosInf else NegInf)"

definition np_times :: "fval \<Rightarrow> rat \<Rightarrow> fval" where
  "np_times x c =
     (case x of
        Fin a \<Rightarrow> Fin (a * c)
      | PosInf \<Rightarrow> (if c > 0 then PosInf else if c < 0 then NegInf else NaN)
      | NegInf \<Rightarrow> (if c > 0 then NegInf else if c < 0 then PosInf else NaN)
      | NaN \<Rightarrow> NaN)"

subsection \<open>Key metrics (lines 167-198)\<close>

definition series_sum :: "rat list \<Rightarrow> rat" where
  "series_sum c = foldl (+) 0 c"

definition nunique :: "'a list \<Rightarrow> nat" where
  "nunique c = length (remdups c)"

definition lt_mask :: "rat list \<Rightarrow> rat \<Rightarrow> bool list" where
  "lt_mask c t = map (\<lambda>v. v < t) c"

record kpis =
  total_sales :: rat
  total_profit :: rat
  avg_profit_margin :: fval
  total_losses :: rat
  total_orders :: nat

definition key_metrics :: "row list \<Rightarrow> kpis" where
  "key_metrics fdf =
     \<lparr> total_sales = series_sum (col sales fdf),
       total_profit = series_sum (col profit fdf),
       avg_profit_margin =
         np_times (np_divide (series_sum (col profit fdf)) (series_sum (col sales fdf))) 100,
       total_losses =
         \<bar>series_sum (col profit (select_rows fdf (lt_mask (col profit fdf) 0)))\<bar>,
       total_orders = nunique (col order_id fdf) \<rparr>"

subsection \<open>Grouped sums (lines 239-245, 381-383)\<close>

text \<open>
  \<^verbatim>\<open>groupby(key).agg({column: 'sum'})\<close>: one entry per key that occurs, the entries sorted
  by key, each with the sum of the column over the rows of that key. The table is
  built row by row: a row adds its value to the entry of its key, or opens a new entry
  at the key's place in the order.
\<close>

fun add_to_group :: "'k::linorder \<Rightarrow> rat \<Rightarrow> ('k \<times> rat) list \<Rightarrow> ('k \<times> rat) list" where
  "add_to_group k v [] = [(k, v)]"
| "add_to_group k v ((k', s) # gs) =
     (if k = k' then (k', s + v) # gs
      else if k < k' then (k, v) # (k', s) # gs
      else (k', s) # add_to_group k v gs)"

definition groupby_sum :: "(row \<Rightarrow> 'k::linorder) \<Rightarrow> (row \<Rightarrow> rat) \<Rightarrow> row list \<Rightarrow> ('k \<times> rat) list" where
  "groupby_sum keyf valf df = foldl (\<lambda>gs r. add_to_group (keyf r) (valf r) gs) [] df"

text \<open>
  \<^verbatim>\<open>category_sales\<close>: sales and profit summed per category, then the
  \<^verbatim>\<open>Profit Margin\<close> column computed from the two sums.
\<close>

record category_row =
  cat_key :: string
  cat_sales :: rat
  cat_profit :: rat
  cat_margin :: fval

definition category_sales :: "row list \<Rightarrow> category_row list" where
  "category_sales fdf =
     map (\<lambda>((k, s), (k', p)).
            \<lparr> cat_key = k, cat_sales = s, cat_profit = p,
              cat_margin = np_times (np_divide p s) 100 \<rparr>)
         (zip (groupby_sum category sales fdf) (groupby_sum category profit fdf))"

text \<open>
  \<^verbatim>\<open>subcategory_sales\<close>: sales summed per sub-category, sorted by the sum, largest first.
  (The default sort of pandas is not stable: rows with equal sums can come out in
  another order than here, where they stay in key order.)
\<close>

definition subcategory_sales :: "row list \<Rightarrow> (string \<times> rat) list" where
  "subcategory_sales fdf = sort_key (\<lambda>g. - snd g) (groupby_sum sub_category sales fdf)"

subsection \<open>Sums in float64\<close>















subsection \<open>Monthly sales trend (lines 202-205)\<close>

text \<open>
  \<^verbatim>\<open>groupby(pd.Grouper(key='Order Date', freq='M'))\<close> bins the rows by calendar month.
  \<^verbatim>\<open>'M'\<close> is the month-end frequency: a bin is labelled with the last day of its month,
  and the bins run over every month from the earliest to the latest order date, whether
  or not a row falls into them; the sum of an empty bin is 0. An empty frame has no
  bins.

  Months are numbered \<open>12 * year + (month - 1)\<close>.
\<close>

definition month_index :: "timestamp \<Rightarrow> int" where
  "month_index t = (case civil_from_days (t div NS_PER_DAY) of (y, m, d) \<Rightarrow> y * 12 + (m - 1))"

definition month_end :: "int \<Rightarrow> timestamp" where
  "month_end k = (days_from_civil ((k + 1) div 12) ((k + 1) mod 12 + 1) 1 - 1) * NS_PER_DAY"

record month_bucket =
  bucket_label :: timestamp
  bucket_sales :: rat
  bucket_profit :: rat

definition add_to_bin :: "int \<Rightarrow> (rat \<times> rat) list \<Rightarrow> row \<Rightarrow> (rat \<times> rat) list" where
  "add_to_bin lo acc r =
     (let i = nat (month_index (order_date r) - lo)
      in acc[i := (fst (acc ! i) + sales r, snd (acc ! i) + profit r)])"

definition monthly_sales :: "row list \<Rightarrow> month_bucket list" where
  "monthly_sales fdf =
     (case map month_index (col order_date fdf) of
        [] \<Rightarrow> []
      | k # ks \<Rightarrow>
          let lo = fold min ks k;
              hi = fold max ks k;
              totals = foldl (add_to_bin lo) (replicate (nat (hi - lo + 1)) (0, 0)) fdf
          in map (\<lambda>(k, (s, p)). \<lparr> bucket_label = month_end k, bucket_sales = s, bucket_profit = p \<rparr>)
               (zip [lo..hi] totals))"

subsection \<open>Loader (lines 40-57)\<close>

text \<open>
  A line of the CSV file as \<^verbatim>\<open>pd.read_csv\<close> returns it. The two date cells are text;
  a cell is given by the year, month and day written in it.
\<close>

record csv_row =
  csv_order_id :: string
  csv_customer_name :: string
  csv_order_date :: "int \<times> int \<times> int"
  csv_ship_date :: "int \<times> int \<times> int"
  csv_category :: string
  csv_sub_category :: string
  csv_region :: string
  csv_state :: string
  csv_ship_mode :: string
  csv_segment :: string
  csv_sales :: rat
  csv_profit :: rat
  csv_quantity :: int
  csv_discount :: rat

text \<open>
  What may lie at one of the two paths the loader tries: nothing, a file that cannot be
  read as CSV, or a table.
\<close>

datatype source = Missing | Unreadable | Csv "csv_row list"

record files =
  current_dir_file :: source
  parent_dir_file :: source

datatype exn = ReadError | DateParseError

datatype message = DatasetNotFound | FailedToLoad

definition path_exists :: "source \<Rightarrow> bool" where
  "path_exists f = (f \<noteq> Missing)"

definition read_csv :: "source \<Rightarrow> exn + csv_row list" where
  "read_csv f = (case f of Csv rows \<Rightarrow> Inr rows | _ \<Rightarrow> Inl ReadError)"

text \<open>\<^verbatim>\<open>pd.to_datetime\<close> on a column: raises at a cell that is not a date.\<close>

fun to_datetime :: "(int \<times> int \<times> int) list \<Rightarrow> exn + timestamp list" where
  "to_datetime [] = Inr []"
| "to_datetime ((y, m, d) # cs) =
     (if valid_civil (y, m, d)
      then (case to_datetime cs of Inl e \<Rightarrow> Inl e | Inr ts \<Rightarrow> Inr (midnight y m d # ts))
      else Inl DateParseError)"

text \<open>\<^verbatim>\<open>(df['Ship Date'] - df['Order Date']).dt.days\<close>\<close>

definition dt_days :: "timestamp list \<Rightarrow> timestamp list \<Rightarrow> int list" where
  "dt_days ships orders = map (\<lambda>(s, d). (s - d) div NS_PER_DAY) (zip ships orders)"

definition make_row :: "csv_row \<Rightarrow> timestamp \<Rightarrow> timestamp \<Rightarrow> int \<Rightarrow> row" where
  "make_row c od sd pt =
     \<lparr> order_id = csv_order_id c, customer_name = csv_customer_name c,
       order_date = od, ship_date = sd, processing_time = pt,
       category = csv_category c, sub_category = csv_sub_category c,
       region = csv_region c, state = csv_state c, ship_mode = csv_ship_mode c,
       segment = csv_segment c, sales = csv_sales c, profit = csv_profit c,
       quantity = csv_quantity c, discount = csv_discount c \<rparr>"

definition convert_rows :: "csv_row list \<Rightarrow> exn + row list" where
  "convert_rows rows =
     (case to_datetime (map csv_order_date rows) of
        Inl e \<Rightarrow> Inl e
      | Inr ods \<Rightarrow>
          (case to_datetime (map csv_ship_date rows) of
             Inl e \<Rightarrow> Inl e
           | Inr sds \<Rightarrow>
               Inr (map (\<lambda>(c, od, sd, pt). make_row c od sd pt)
                      (zip rows (zip ods (zip sds (dt_days sds ods)))))))"

definition read_and_convert :: "source \<Rightarrow> exn + row list" where
  "read_and_convert f = (case read_csv f of Inl e \<Rightarrow> Inl e | Inr rows \<Rightarrow> convert_rows rows)"

text \<open>
  \<^verbatim>\<open>load_data\<close> returns the messages it shows and either the exception that ends it or
  the frame. With no file at either path it shows an error and returns the empty frame.
\<close>

definition load_data :: "files \<Rightarrow> message list \<times> (exn + row list)" where
  "load_data fs =
     (if path_exists (current_dir_file fs) then ([], read_and_convert (current_dir_file fs))
      else if path_exists (parent_dir_file fs) then ([], read_and_convert (parent_dir_file fs))
      else ([DatasetNotFound], Inr []))"

subsection \<open>The script (lines 59-65, 146-205, 239-245, 381-383)\<close>

record dashboard =
  filtered_df :: "row list"
  metrics :: kpis
  monthly :: "month_bucket list"
  by_category :: "category_row list"
  by_subcategory :: "(string \<times> rat) list"

datatype outcome = Raised exn | Stopped | Rendered dashboard

definition render :: "row list \<Rightarrow> dashboard" where
  "render fdf =
     \<lparr> filtered_df = fdf, metrics = key_metrics fdf, monthly = monthly_sales fdf,
       by_category = category_sales fdf, by_subcategory = subcategory_sales fdf \<rparr>"

text \<open>
  The script from top to bottom. The sidebar is a parameter: from the loaded frame it
  yields the dates and ticked values. An exception of the loader ends the run; an empty
  frame ends it at \<^verbatim>\<open>st.stop()\<close>; otherwise the frame is filtered and the tables are
  computed from the filtered frame.
\<close>

definition run_script :: "files \<Rightarrow> (row list \<Rightarrow> filter_spec) \<Rightarrow> message list \<times> outcome" where
  "run_script fs sidebar =
     (case load_data fs of
        (msgs, Inl e) \<Rightarrow> (msgs, Raised e)
      | (msgs, Inr df) \<Rightarrow>
          if df = [] then (msgs @ [FailedToLoad], Stopped)
          else (msgs, Rendered (render (apply_filters df (sidebar df)))))"

subsection \<open>Sample data\<close>

definition sample_row :: row where
  "sample_row =
     \<lparr> order_id = ''CA-1'', customer_name = ''A'',
       order_date = midnight 2023 3 1, ship_date = midnight 2023 3 1, processing_time = 0,
       category = ''Furniture'', sub_category = ''Chairs'', region = ''West'',
       state = ''Ohio'', ship_mode = ''First Class'', segment = ''Consumer'',
       sales = 0, profit = 0, quantity = 1, discount = 0 \<rparr>"

definition sample_csv_row :: csv_row where
  "sample_csv_row =
     \<lparr> csv_order_id = ''CA-1'', csv_customer_name = ''A'',
       csv_order_date = (2023, 1, 1), csv_ship_date = (2023, 1, 5),
       csv_category = ''Furniture'', csv_sub_category = ''Chairs'', csv_region = ''West'',
       csv_state = ''Ohio'', csv_ship_mode = ''First Class'', csv_segment = ''Consumer'',
       csv_sales = 10, csv_profit = 2, csv_quantity = 1, csv_discount = 0 \<rparr>"

definition sample_spec :: filter_spec where
  "sample_spec =
     \<lparr> start_date = midnight 2023 1 1, end_date = midnight 2023 12 31,
       selected_categories = [''Furniture''], selected_subcategories = [''Chairs''],
       selected_regions = [''West''], selected_states = [''Ohio''],
       selected_ship_modes = [''First Class''], selected_segments = [''Consumer''] \<rparr>"

section \<open>Properties\<close>

subsection \<open>Masks and row selection\<close>

lemma mask_and_maps:
  "mask_and (map p xs) (map q xs) = map (\<lambda>x. p x \<and> q x) xs"
  by (induction xs) (simp_all add: mask_and_def)

lemma select_rows_map:
  "select_rows xs (map p xs) = filter p xs"
  by (induction xs) (simp_all add: select_rows_def)

lemma apply_filters_filter:
  "apply_filters df spec = filter (passes spec) df"
proof -
  have "apply_filters df spec =
      select_rows df (map (\<lambda>r. ((((((order_date r \<ge> start_date spec \<and>
        order_date r \<le> end_date spec) \<and>
        category r \<in> set (selected_categories spec)) \<and>
        region r \<in> set (selected_regions spec)) \<and>
        ship_mode r \<in> set (selected_ship_modes spec)) \<and>
        state r \<in> set (selected_states spec)) \<and>
        segment r \<in> set (selected_segments spec)) \<and>
        sub_category r \<in> set (selected_subcategories spec)) df)"
    by (simp add: apply_filters_def col_def ge_mask_def le_mask_def isin_def
        mask_and_maps)
  also have "\<dots> = filter (\<lambda>r. ((((((order_date r \<ge> start_date spec \<and>
        order_date r \<le> end_date spec) \<and>
        category r \<in> set (selected_categories spec)) \<and>
        region r \<in> set (selected_regions spec)) \<and>
        ship_mode r \<in> set (selected_ship_modes spec)) \<and>
        state r \<in> set (selected_states spec)) \<and>
        segment r \<in> set (selected_segments spec)) \<and>
        sub_category r \<in> set (selected_subcategories spec)) df"
    by (rule select_rows_map)
  also have "\<dots> = filter (passes spec) df"
    by (rule filter_cong) (auto simp: passes_def)
  finally show ?thesis .
qed

text \<open>
  Claim C1. The filter returns exactly the rows whose order date lies in the closed
  interval from the start date to the end date and whose category, sub-category, region,
  state, ship mode and segment are each among the selected values of that dimension; the
  rows come out in the order they have in the input.
\<close>

theorem C1_apply_filters_exact:
  "apply_filters df spec =
     filter (\<lambda>r. start_date spec \<le> order_date r \<and> order_date r \<le> end_date spec \<and>
        category r \<in> set (selected_categories spec) \<and>
        sub_category r \<in> set (selected_subcategories spec) \<and>
        region r \<in> set (selected_regions spec) \<and>
        state r \<in> set (selected_states spec) \<and>
        ship_mode r \<in> set (selected_ship_modes spec) \<and>
        segment r \<in> set (selected_segments spec)) df
   \<and> subseq (apply_filters df spec) df"
proof -
  have "passes spec = (\<lambda>r. start_date spec \<le> order_date r \<and> order_date r \<le> end_date spec \<and>
        category r \<in> set (selected_categories spec) \<and>
        sub_category r \<in> set (selected_subcategories spec) \<and>
        region r \<in> set (selected_regions spec) \<and>
        state r \<in> set (selected_states spec) \<and>
        ship_mode r \<in> set (selected_ship_modes spec) \<and>
        segment r \<in> set (selected_segments spec))"
    by (rule ext) (simp add: passes_def)
  then show ?thesis
    by (simp add: apply_filters_filter)
qed

lemma filter_length_mono:
  "(\<And>x. p x \<Longrightarrow> q x) \<Longrightarrow> length (filter p xs) \<le> length (filter q xs)"
  by (induction xs) auto

text \<open>
  Claim C7. Removing a value from the selection of any one dimension never makes the
  filtered frame longer, and the filtered frame is never longer than the input.
\<close>

theorem C7_filter_monotone:
  "length (apply_filters df (spec\<lparr>selected_categories := removeAll v (selected_categories spec)\<rparr>))
     \<le> length (apply_filters df spec) \<and>
   length (apply_filters df (spec\<lparr>selected_subcategories := removeAll v (selected_subcategories spec)\<rparr>))
     \<le> length (apply_filters df spec) \<and>
   length (apply_filters df (spec\<lparr>selected_regions := removeAll v (selected_regions spec)\<rparr>))
     \<le> length (apply_filters df spec) \<and>
   length (apply_filters df (spec\<lparr>selected_states := removeAll v (selected_states spec)\<rparr>))
     \<le> length (apply_filters df spec) \<and>
   length (apply_filters df (spec\<lparr>selected_ship_modes := removeAll v (selected_ship_modes spec)\<rparr>))
     \<le> length (apply_filters df spec) \<and>
   length (apply_filters df (spec\<lparr>selected_segments := removeAll v (selected_segments spec)\<rparr>))
     \<le> length (apply_filters df spec) \<and>
   length (apply_filters df spec) \<le> length df"
  unfolding apply_filters_filter
  by (intro conjI filter_length_mono length_filter_le) (simp_all add: passes_def)

subsection \<open>Key metrics\<close>

lemma foldl_plus_sum_list: "foldl (+) a xs = (a::rat) + sum_list xs"
  by (induction xs arbitrary: a) (simp_all add: add.assoc)

lemma series_sum_sum_list: "series_sum c = sum_list c"
  by (simp add: series_sum_def foldl_plus_sum_list)

lemma negative_rows:
  "select_rows fdf (lt_mask (map profit fdf) 0) = filter (\<lambda>r. profit r < 0) fdf"
proof -
  have "lt_mask (map profit fdf) 0 = map (\<lambda>r. profit r < 0) fdf"
    by (simp add: lt_mask_def)
  then show ?thesis by (simp add: select_rows_map)
qed

lemma sum_negative_profits:
  "\<bar>sum_list (map profit (filter (\<lambda>r. profit r < 0) rs))\<bar> =
     sum_list (map (\<lambda>r. \<bar>profit r\<bar>) (filter (\<lambda>r. profit r < 0) rs))"
proof -
  have "sum_list (map profit (filter (\<lambda>r. profit r < 0) rs)) =
        - sum_list (map (\<lambda>r. \<bar>profit r\<bar>) (filter (\<lambda>r. profit r < 0) rs))"
    by (induction rs) simp_all
  moreover have "0 \<le> sum_list (map (\<lambda>r. \<bar>profit r\<bar>) (filter (\<lambda>r. profit r < 0) rs))"
    by (rule sum_list_nonneg) auto
  ultimately show ?thesis by simp
qed

lemma key_metrics_fields:
  "total_sales (key_metrics rs) = sum_list (map sales rs)"
  "total_profit (key_metrics rs) = sum_list (map profit rs)"
  "avg_profit_margin (key_metrics rs) =
     np_times (np_divide (sum_list (map profit rs)) (sum_list (map sales rs))) 100"
  "total_losses (key_metrics rs) = \<bar>sum_list (map profit (filter (\<lambda>r. profit r < 0) rs))\<bar>"
  "total_orders (key_metrics rs) = length (remdups (map order_id rs))"
  by (simp_all add: key_metrics_def series_sum_sum_list negative_rows col_def nunique_def)

lemma key_metrics_Nil:
  "key_metrics [] = \<lparr>total_sales = 0, total_profit = 0, avg_profit_margin = NaN,
        total_losses = 0, total_orders = 0\<rparr>"
  by (simp add: key_metrics_def series_sum_def col_def select_rows_def lt_mask_def nunique_def
      np_divide_def np_times_def)

text \<open>
  Claim C4. The key metrics of any frame are: total sales, the sum of the sales; total
  profit, the sum of the profits; the margin, total profit divided by total sales times
  100 (stated here where total sales is not zero); total losses, the sum of the absolute
  values of the negative profits; total orders, the number of distinct order ids.
\<close>

theorem C4_key_metrics:
  "total_sales (key_metrics rs) = (\<Sum>r\<leftarrow>rs. sales r) \<and>
   total_profit (key_metrics rs) = (\<Sum>r\<leftarrow>rs. profit r) \<and>
   ((\<Sum>r\<leftarrow>rs. sales r) \<noteq> 0 \<longrightarrow>
      avg_profit_margin (key_metrics rs) =
        Fin ((\<Sum>r\<leftarrow>rs. profit r) / (\<Sum>r\<leftarrow>rs. sales r) * 100)) \<and>
   total_losses (key_metrics rs) = (\<Sum>r\<leftarrow>filter (\<lambda>r. profit r < 0) rs. \<bar>profit r\<bar>) \<and>
   total_orders (key_metrics rs) = card (order_id ` set rs)"
proof -
  have "length (remdups (map order_id rs)) = card (order_id ` set rs)"
    by (simp add: length_remdups_card_conv)
  then show ?thesis
    by (simp add: key_metrics_fields sum_negative_profits np_divide_def np_times_def)
qed

text \<open>
  The scenario of the claim: two rows with sales 100 and 50 and profits 20 and -10 give
  total sales 150, total profit 10, total losses 10 and a margin of 20/3, which is 6.67
  to two decimals.
\<close>

theorem C4_key_metrics_example:
  "key_metrics [sample_row\<lparr>sales := 100, profit := 20\<rparr>, sample_row\<lparr>sales := 50, profit := - 10\<rparr>]
     = \<lparr>total_sales = 150, total_profit = 10, avg_profit_margin = Fin (20 / 3),
        total_losses = 10, total_orders = 1\<rparr>
   \<and> \<bar>(20 / 3 :: rat) - 667 / 100\<bar> < 1 / 100"
proof -
  let ?rs = "[sample_row\<lparr>sales := 100, profit := 20\<rparr>, sample_row\<lparr>sales := 50, profit := - 10\<rparr>]"
  have "card (order_id ` set ?rs) = 1" by (simp add: sample_row_def)
  with C4_key_metrics [of ?rs] have
    "total_sales (key_metrics ?rs) = 150" "total_profit (key_metrics ?rs) = 10"
    "avg_profit_margin (key_metrics ?rs) = Fin (20 / 3)"
    "total_losses (key_metrics ?rs) = 10" "total_orders (key_metrics ?rs) = 1"
    by simp_all
  then have "key_metrics ?rs = \<lparr>total_sales = 150, total_profit = 10,
        avg_profit_margin = Fin (20 / 3), total_losses = 10, total_orders = 1\<rparr>"
    by (cases "key_metrics ?rs") simp
  then show ?thesis by simp
qed

subsection \<open>Empty and full selections\<close>

lemma apply_filters_empty_selection:
  assumes "selected_categories spec = [] \<or> selected_subcategories spec = [] \<or>
     selected_regions spec = [] \<or> selected_states spec = [] \<or>
     selected_ship_modes spec = [] \<or> selected_segments spec = []"
  shows "apply_filters df spec = []"
proof -
  from assms have "\<And>r. \<not> passes spec r"
    by (auto simp: passes_def)
  then show ?thesis by (simp add: apply_filters_filter)
qed

text \<open>
  Claim C2. If no value is selected in one of the six dimensions, the filtered frame is
  empty, whatever the input frame, and its key metrics are 0 for the four totals and
  \<^verbatim>\<open>nan\<close> for the margin. Nothing raises on the way: the division is numpy's.
\<close>

theorem C2_empty_selection:
  assumes "selected_categories spec = [] \<or> selected_subcategories spec = [] \<or>
     selected_regions spec = [] \<or> selected_states spec = [] \<or>
     selected_ship_modes spec = [] \<or> selected_segments spec = []"
  shows "apply_filters df spec = [] \<and>
     key_metrics (apply_filters df spec) =
       \<lparr>total_sales = 0, total_profit = 0, avg_profit_margin = NaN,
        total_losses = 0, total_orders = 0\<rparr>"
  using apply_filters_empty_selection [OF assms] key_metrics_Nil by simp

theorem C2_empty_selection_witness:
  "selected_regions (sample_spec\<lparr>selected_regions := []\<rparr>) = [] \<and>
   apply_filters [sample_row] sample_spec = [sample_row] \<and>
   apply_filters [sample_row] (sample_spec\<lparr>selected_regions := []\<rparr>) = [] \<and>
   key_metrics (apply_filters [sample_row] (sample_spec\<lparr>selected_regions := []\<rparr>)) =
       \<lparr>total_sales = 0, total_profit = 0, avg_profit_margin = NaN,
        total_losses = 0, total_orders = 0\<rparr>"
proof -
  have h: "selected_regions (sample_spec\<lparr>selected_regions := []\<rparr>) = []" by simp
  have "apply_filters [sample_row] sample_spec = [sample_row]"
    by (simp add: apply_filters_filter passes_def sample_row_def sample_spec_def midnight_def
        days_from_civil_def NS_PER_DAY_def)
  with h C2_empty_selection [of "sample_spec\<lparr>selected_regions := []\<rparr>" "[sample_row]"]
  show ?thesis by (simp add: key_metrics_Nil)
qed

text \<open>
  Claim C6. When the date interval of the selection covers the order date of every row
  and, in each of the six dimensions, every value that occurs in the frame is selected,
  the filter returns the frame unchanged.
\<close>

theorem C6_full_selection_identity:
  assumes "\<forall>r\<in>set df. start_date spec \<le> order_date r \<and> order_date r \<le> end_date spec"
    and "set (col category df) \<subseteq> set (selected_categories spec)"
    and "set (col sub_category df) \<subseteq> set (selected_subcategories spec)"
    and "set (col region df) \<subseteq> set (selected_regions spec)"
    and "set (col state df) \<subseteq> set (selected_states spec)"
    and "set (col ship_mode df) \<subseteq> set (selected_ship_modes spec)"
    and "set (col segment df) \<subseteq> set (selected_segments spec)"
  shows "apply_filters df spec = df"
proof -
  from assms have "\<forall>r\<in>set df. passes spec r"
    by (auto simp: passes_def col_def)
  then show ?thesis by (simp add: apply_filters_filter)
qed

theorem C6_full_selection_identity_witness:
  "apply_filters
     [sample_row, sample_row\<lparr>region := ''East'', order_date := midnight 2023 7 4\<rparr>]
     (sample_spec\<lparr>selected_regions := [''West'', ''East'']\<rparr>)
   = [sample_row, sample_row\<lparr>region := ''East'', order_date := midnight 2023 7 4\<rparr>]"
  by (rule C6_full_selection_identity)
    (simp_all add: col_def sample_row_def sample_spec_def midnight_def days_from_civil_def
      NS_PER_DAY_def)

subsection \<open>Grouped sums\<close>

lemma sum_add_to_group:
  "sum_list (map snd (add_to_group k v gs)) = sum_list (map snd gs) + v"
  by (induction k v gs rule: add_to_group.induct) simp_all

lemma keys_add_to_group:
  "map fst gs = map fst hs \<Longrightarrow> map fst (add_to_group k v gs) = map fst (add_to_group k w hs)"
proof (induction k v gs arbitrary: hs rule: add_to_group.induct)
  case (1 k v)
  then show ?case by simp
next
  case (2 k v k' s gs)
  then obtain t hs' where hs: "hs = (k', t) # hs'" and tl: "map fst gs = map fst hs'"
    by (cases hs) auto
  show ?case
  proof (cases "k = k' \<or> k < k'")
    case True
    then show ?thesis using hs tl by auto
  next
    case False
    with "2.IH" [OF _ _ tl] hs show ?thesis by simp
  qed
qed

lemma sum_foldl_groups:
  "sum_list (map snd (foldl (\<lambda>gs r. add_to_group (keyf r) (valf r) gs) gs rs)) =
     sum_list (map snd gs) + sum_list (map valf rs)"
  by (induction rs arbitrary: gs) (simp_all add: sum_add_to_group add.assoc)

lemma keys_foldl_groups:
  "map fst gs = map fst hs \<Longrightarrow>
   map fst (foldl (\<lambda>gs r. add_to_group (keyf r) (valf r) gs) gs rs) =
   map fst (foldl (\<lambda>gs r. add_to_group (keyf r) (valg r) gs) hs rs)"
proof (induction rs arbitrary: gs hs)
  case Nil
  then show ?case by simp
next
  case (Cons r rs)
  from Cons.prems have "map fst (add_to_group (keyf r) (valf r) gs) =
      map fst (add_to_group (keyf r) (valg r) hs)"
    by (rule keys_add_to_group)
  then show ?case using Cons.IH by simp
qed

lemma groupby_sum_total:
  "sum_list (map snd (groupby_sum keyf valf rs)) = sum_list (map valf rs)"
  by (simp add: groupby_sum_def sum_foldl_groups)

lemma groupby_sum_keys:
  "map fst (groupby_sum keyf valf rs) = map fst (groupby_sum keyf valg rs)"
  unfolding groupby_sum_def by (rule keys_foldl_groups) simp

lemma groupby_sum_length:
  "length (groupby_sum keyf valf rs) = length (groupby_sum keyf valg rs)"
  using groupby_sum_keys [of keyf valf rs valg] by (metis length_map)

lemma category_sales_columns:
  "map cat_sales (category_sales rs) = map snd (groupby_sum category sales rs)"
  "map cat_profit (category_sales rs) = map snd (groupby_sum category profit rs)"
  "map cat_key (category_sales rs) = map fst (groupby_sum category sales rs)"
proof -
  have len: "length (groupby_sum category sales rs) = length (groupby_sum category profit rs)"
    by (rule groupby_sum_length)
  have a: "map cat_sales (category_sales rs) =
      map (snd \<circ> fst) (zip (groupby_sum category sales rs) (groupby_sum category profit rs))"
    by (simp add: category_sales_def split_def comp_def)
  have b: "map cat_profit (category_sales rs) =
      map (snd \<circ> snd) (zip (groupby_sum category sales rs) (groupby_sum category profit rs))"
    by (simp add: category_sales_def split_def comp_def)
  have c: "map cat_key (category_sales rs) =
      map (fst \<circ> fst) (zip (groupby_sum category sales rs) (groupby_sum category profit rs))"
    by (simp add: category_sales_def split_def comp_def)
  show "map cat_sales (category_sales rs) = map snd (groupby_sum category sales rs)"
    using a len by (simp flip: map_map)
  show "map cat_profit (category_sales rs) = map snd (groupby_sum category profit rs)"
    using b len by (simp flip: map_map)
  show "map cat_key (category_sales rs) = map fst (groupby_sum category sales rs)"
    using c len by (simp flip: map_map)
qed

lemma sum_insort_key:
  "sum_list (map g (insort_key f x xs)) = g x + sum_list (map g xs)"
  for g :: "'a \<Rightarrow> rat"
  by (induction xs) (simp_all add: add.left_commute)

lemma sum_sort_key:
  "sum_list (map g (sort_key f xs)) = sum_list (map g xs)"
  for g :: "'a \<Rightarrow> rat"
  by (induction xs) (simp_all add: sum_insort_key)








text \<open>
  With exact sums the totals of the groups add up to the total of the frame, whatever the
  key, also in the tables \<^verbatim>\<open>category_sales\<close> and \<^verbatim>\<open>subcategory_sales\<close>.
\<close>

lemma exact_group_sums_add_up:
  "sum_list (map snd (groupby_sum keyf sales (apply_filters df spec)))
     = sum_list (map sales (apply_filters df spec)) \<and>
   sum_list (map snd (groupby_sum (\<lambda>r. (category r, sub_category r)) sales (apply_filters df spec)))
     = sum_list (map sales (apply_filters df spec)) \<and>
   sum_list (map cat_sales (category_sales (apply_filters df spec)))
     = sum_list (map sales (apply_filters df spec)) \<and>
   sum_list (map snd (subcategory_sales (apply_filters df spec)))
     = sum_list (map sales (apply_filters df spec))"
  by (simp add: groupby_sum_total category_sales_columns subcategory_sales_def sum_sort_key)


subsection \<open>Grouped sums in float64\<close>





















subsection \<open>Ratios with a zero denominator\<close>








subsection \<open>Loader\<close>

lemma NS_PER_DAY_pos: "0 < NS_PER_DAY"
  by (simp add: NS_PER_DAY_def)

lemma to_datetime_Inr:
  "to_datetime cs = Inr ts \<Longrightarrow> ts = map (\<lambda>(y, m, d). midnight y m d) cs"
proof (induction cs arbitrary: ts)
  case Nil
  then show ?case by simp
next
  case (Cons c cs)
  obtain y m d where c: "c = (y, m, d)" by (cases c)
  from Cons.prems c obtain ts' where "to_datetime cs = Inr ts'" "ts = midnight y m d # ts'"
    by (auto split: if_splits sum.splits)
  with Cons.IH c show ?case by simp
qed

lemma convert_rows_Inr:
  assumes "convert_rows rows = Inr df"
  shows "df = map (\<lambda>c. make_row c (day_number (csv_order_date c) * NS_PER_DAY)
                       (day_number (csv_ship_date c) * NS_PER_DAY)
                       (day_number (csv_ship_date c) - day_number (csv_order_date c))) rows"
proof -
  from assms obtain ods sds where
    ods: "to_datetime (map csv_order_date rows) = Inr ods" and
    sds: "to_datetime (map csv_ship_date rows) = Inr sds" and
    df: "df = map (\<lambda>(c, od, sd, pt). make_row c od sd pt)
                 (zip rows (zip ods (zip sds (dt_days sds ods))))"
    by (auto simp: convert_rows_def split: sum.splits)
  have o: "ods = map (\<lambda>c. day_number (csv_order_date c) * NS_PER_DAY) rows"
    using to_datetime_Inr [OF ods] by (simp add: day_number_def midnight_def split_def comp_def)
  have s: "sds = map (\<lambda>c. day_number (csv_ship_date c) * NS_PER_DAY) rows"
    using to_datetime_Inr [OF sds] by (simp add: day_number_def midnight_def split_def comp_def)
  have d: "dt_days (map (\<lambda>c. day_number (csv_ship_date c) * NS_PER_DAY) rows)
                   (map (\<lambda>c. day_number (csv_order_date c) * NS_PER_DAY) rows) =
      map (\<lambda>c. day_number (csv_ship_date c) - day_number (csv_order_date c)) rows"
    using NS_PER_DAY_pos
    by (simp add: dt_days_def zip_map_map comp_def zip_same_conv_map
        flip: left_diff_distrib)
  have z: "zip rows (zip (map f rows) (zip (map g rows) (map h rows))) =
      map (\<lambda>c. (c, f c, g c, h c)) rows" for f g :: "csv_row \<Rightarrow> int" and h :: "csv_row \<Rightarrow> int"
    by (induction rows) simp_all
  show ?thesis
    unfolding df o s d z by (simp add: comp_def)
qed

lemma load_data_Inr:
  assumes "load_data fs = (msgs, Inr df)"
  shows "df = [] \<or> (\<exists>rows. df = map (\<lambda>c. make_row c (day_number (csv_order_date c) * NS_PER_DAY)
                       (day_number (csv_ship_date c) * NS_PER_DAY)
                       (day_number (csv_ship_date c) - day_number (csv_order_date c))) rows)"
  using assms
  by (auto simp: load_data_def read_and_convert_def read_csv_def
      split: if_splits sum.splits source.splits dest: convert_rows_Inr)


text \<open>
  Claim C9. In every row of a loaded frame the processing time is the ship date minus the
  order date in whole days: it is the floor of the difference divided by the length of a
  day, and the difference is that many days exactly. A ship date before the order date
  gives a negative processing time, which the loader leaves as it is.
\<close>

theorem C9_processing_time:
  assumes "load_data fs = (msgs, Inr df)" and "r \<in> set df"
  shows "processing_time r = (ship_date r - order_date r) div NS_PER_DAY \<and>
         processing_time r * NS_PER_DAY = ship_date r - order_date r \<and>
         (ship_date r < order_date r \<longrightarrow> processing_time r < 0)"
proof -
  from load_data_Inr [OF assms(1)] assms(2) obtain c where
    r: "r = make_row c (day_number (csv_order_date c) * NS_PER_DAY)
                       (day_number (csv_ship_date c) * NS_PER_DAY)
                       (day_number (csv_ship_date c) - day_number (csv_order_date c))"
    by auto
  have exact: "processing_time r * NS_PER_DAY = ship_date r - order_date r"
    by (simp add: r make_row_def left_diff_distrib)
  then have "processing_time r = (ship_date r - order_date r) div NS_PER_DAY"
    using NS_PER_DAY_pos by (metis nonzero_mult_div_cancel_right less_irrefl)
  moreover have "ship_date r < order_date r \<longrightarrow> processing_time r < 0"
  proof
    assume "ship_date r < order_date r"
    with exact have "processing_time r * NS_PER_DAY < 0" by simp
    with NS_PER_DAY_pos show "processing_time r < 0"
      by (simp add: mult_less_0_iff)
  qed
  ultimately show ?thesis using exact by simp
qed


text \<open>
  Order date 2023-01-01 and ship date 2023-01-05 load with processing time 4; the two
  dates swapped load with processing time -4.
\<close>

theorem C9_processing_time_witness:
  "load_data \<lparr>current_dir_file = Csv [sample_csv_row,
       sample_csv_row\<lparr>csv_order_date := (2023, 1, 5), csv_ship_date := (2023, 1, 1)\<rparr>],
     parent_dir_file = Missing\<rparr> =
     ([], Inr [make_row sample_csv_row (midnight 2023 1 1) (midnight 2023 1 5) 4,
               make_row sample_csv_row (midnight 2023 1 5) (midnight 2023 1 1) (- 4)]) \<and>
   (midnight 2023 1 5 - midnight 2023 1 1) div NS_PER_DAY = 4 \<and>
   (midnight 2023 1 1 - midnight 2023 1 5) div NS_PER_DAY = - 4"
proof -
  let ?fs = "\<lparr>current_dir_file = Csv [sample_csv_row,
       sample_csv_row\<lparr>csv_order_date := (2023, 1, 5), csv_ship_date := (2023, 1, 1)\<rparr>],
     parent_dir_file = Missing\<rparr>"
  let ?r1 = "make_row sample_csv_row (midnight 2023 1 1) (midnight 2023 1 5) 4"
  let ?r2 = "make_row sample_csv_row (midnight 2023 1 5) (midnight 2023 1 1) (- 4)"
  have l: "load_data ?fs = ([], Inr [?r1, ?r2])"
    by (simp add: load_data_def path_exists_def read_and_convert_def read_csv_def
        convert_rows_def sample_csv_row_def valid_civil_def days_in_month_def dt_days_def
        make_row_def midnight_def days_from_civil_def NS_PER_DAY_def)
  have "processing_time ?r1 = (ship_date ?r1 - order_date ?r1) div NS_PER_DAY"
    using C9_processing_time [OF l, of ?r1] by simp
  moreover have "processing_time ?r2 = (ship_date ?r2 - order_date ?r2) div NS_PER_DAY"
    using C9_processing_time [OF l, of ?r2] by simp
  ultimately show ?thesis using l by (simp add: make_row_def)
qed


subsection \<open>Load failures\<close>

lemma run_script_Rendered:
  assumes "run_script fs sidebar = (msgs, Rendered d)"
  shows "\<exists>df. load_data fs = (msgs, Inr df) \<and> df \<noteq> [] \<and>
           d = render (apply_filters df (sidebar df))"
  using assms
  by (cases "load_data fs") (auto simp: run_script_def split: sum.splits if_splits)


text \<open>
  Claim C10, as the code has it. With the dataset at neither path the loader does not
  fail: it reports that the dataset is not found and returns the empty frame, and the
  script then reports the failed load and stops. With an unreadable file at the path the
  loader picks, the exception of \<^verbatim>\<open>pd.read_csv\<close> ends the run. Either way the run ends
  before the filter: its result does not depend on the sidebar and no table is rendered
  (\<open>run_script_Rendered\<close>: a rendered dashboard needs a loaded, non-empty frame).
\<close>

theorem C10_load_failure_halts:
  "(current_dir_file fs = Missing \<and> parent_dir_file fs = Missing \<longrightarrow>
      load_data fs = ([DatasetNotFound], Inr []) \<and>
      run_script fs sidebar = ([DatasetNotFound, FailedToLoad], Stopped)) \<and>
   (current_dir_file fs = Unreadable \<or>
      (current_dir_file fs = Missing \<and> parent_dir_file fs = Unreadable) \<longrightarrow>
      load_data fs = ([], Inl ReadError) \<and>
      run_script fs sidebar = ([], Raised ReadError))"
  by (auto simp: run_script_def load_data_def path_exists_def read_and_convert_def read_csv_def)

theorem C10_load_failure_halts_witness:
  "run_script \<lparr>current_dir_file = Missing, parent_dir_file = Missing\<rparr> (\<lambda>df. sample_spec)
     = ([DatasetNotFound, FailedToLoad], Stopped) \<and>
   run_script \<lparr>current_dir_file = Unreadable, parent_dir_file = Csv [sample_csv_row]\<rparr>
       (\<lambda>df. sample_spec)
     = ([], Raised ReadError) \<and>
   run_script \<lparr>current_dir_file = Missing, parent_dir_file = Unreadable\<rparr> (\<lambda>df. sample_spec)
     = ([], Raised ReadError)"
  using C10_load_failure_halts [of "\<lparr>current_dir_file = Missing, parent_dir_file = Missing\<rparr>" "\<lambda>df. sample_spec"]
    C10_load_failure_halts [of "\<lparr>current_dir_file = Unreadable, parent_dir_file = Csv [sample_csv_row]\<rparr>" "\<lambda>df. sample_spec"]
    C10_load_failure_halts [of "\<lparr>current_dir_file = Missing, parent_dir_file = Unreadable\<rparr>" "\<lambda>df. sample_spec"]
  by simp

text \<open>
  The claim says that \<^verbatim>\<open>load\<close> fails with an error when the source is missing. With no
  file at either path \<^verbatim>\<open>load_data\<close> returns normally: its result is the empty frame, not
  an exception.
\<close>

theorem C10_missing_source_counterexample:
  "load_data \<lparr>current_dir_file = Missing, parent_dir_file = Missing\<rparr>
     = ([DatasetNotFound], Inr []) \<and>
   snd (load_data \<lparr>current_dir_file = Missing, parent_dir_file = Missing\<rparr>) \<noteq> Inl ReadError \<and>
   snd (load_data \<lparr>current_dir_file = Missing, parent_dir_file = Missing\<rparr>)
     \<noteq> Inl DateParseError"
  by (simp add: load_data_def path_exists_def)

subsection \<open>Monthly buckets\<close>

lemma length_foldl_add_to_bin:
  "length (foldl (add_to_bin lo) acc rs) = length acc"
  by (induction rs arbitrary: acc) (simp_all add: add_to_bin_def Let_def)

lemma nth_foldl_add_to_bin:
  "i < length acc \<Longrightarrow>
   foldl (add_to_bin lo) acc rs ! i =
     (fst (acc ! i) + sum_list (map sales (filter (\<lambda>r. nat (month_index (order_date r) - lo) = i) rs)),
      snd (acc ! i) + sum_list (map profit (filter (\<lambda>r. nat (month_index (order_date r) - lo) = i) rs)))"
proof (induction rs arbitrary: acc)
  case Nil
  then show ?case by simp
next
  case (Cons r rs)
  let ?acc = "add_to_bin lo acc r"
  have len: "i < length ?acc" using Cons.prems by (simp add: add_to_bin_def Let_def)
  have step: "?acc ! i =
      (if nat (month_index (order_date r) - lo) = i
       then (fst (acc ! i) + sales r, snd (acc ! i) + profit r) else acc ! i)"
    using Cons.prems by (auto simp: add_to_bin_def Let_def)
  show ?case
    using Cons.IH [OF len] by (simp add: step add.assoc)
qed

lemma fold_min_Min: "fold min ks (k::int) = Min (set (k # ks))"
  by (simp only: Min.set_eq_fold)

lemma fold_max_Max: "fold max ks (k::int) = Max (set (k # ks))"
  by (simp only: Max.set_eq_fold)

text \<open>
  Claim C3, as the code has it. Every row is counted in the bucket of the calendar month
  of its order date, and the bucket carries the month-end label of that month. The
  result has one bucket for every month from the earliest to the latest month of an order
  date, in order; a month in between without rows has a bucket with sums 0. The empty
  frame has no buckets.
\<close>

theorem C3_monthly_buckets:
  "monthly_sales [] = [] \<and>
   (rs \<noteq> [] \<longrightarrow>
      monthly_sales rs =
        map (\<lambda>k. \<lparr> bucket_label = month_end k,
                    bucket_sales = (\<Sum>r\<leftarrow>filter (\<lambda>r. month_index (order_date r) = k) rs. sales r),
                    bucket_profit = (\<Sum>r\<leftarrow>filter (\<lambda>r. month_index (order_date r) = k) rs. profit r) \<rparr>)
            [Min (set (map (\<lambda>r. month_index (order_date r)) rs)) ..
             Max (set (map (\<lambda>r. month_index (order_date r)) rs))])"
proof (intro conjI impI)
  show "monthly_sales [] = []" by (simp add: monthly_sales_def col_def)
next
  assume ne: "rs \<noteq> []"
  let ?ks = "map (\<lambda>r. month_index (order_date r)) rs"
  let ?lo = "Min (set ?ks)" and ?hi = "Max (set ?ks)"
  let ?n = "nat (?hi - ?lo + 1)"
  let ?tot = "foldl (add_to_bin ?lo) (replicate ?n (0, 0)) rs"
  from ne obtain k ks where ks: "?ks = k # ks" by (cases rs) auto
  have ms: "monthly_sales rs =
      map (\<lambda>(k, (s, p)). \<lparr> bucket_label = month_end k, bucket_sales = s, bucket_profit = p \<rparr>)
        (zip [?lo..?hi] ?tot)"
  proof -
    have "map month_index (col order_date rs) = k # ks"
      using ks by (simp add: col_def comp_def)
    moreover have "fold min ks k = ?lo" "fold max ks k = ?hi"
      by (simp_all only: fold_min_Min fold_max_Max ks)
    ultimately show ?thesis by (simp add: monthly_sales_def Let_def)
  qed
  have lo_le: "\<And>r. r \<in> set rs \<Longrightarrow> ?lo \<le> month_index (order_date r)"
    by (rule Min_le) auto
  have le_hi: "\<And>r. r \<in> set rs \<Longrightarrow> month_index (order_date r) \<le> ?hi"
    by (rule Max_ge) auto
  have lohi: "?lo \<le> ?hi"
  proof -
    from ne obtain r where "r \<in> set rs" by (cases rs) auto
    from lo_le [OF this] le_hi [OF this] show ?thesis by simp
  qed
  have len_up: "length [?lo..?hi] = ?n" by simp
  have len_tot: "length ?tot = ?n" by (simp add: length_foldl_add_to_bin)
  show "monthly_sales rs =
        map (\<lambda>k. \<lparr> bucket_label = month_end k,
                    bucket_sales = (\<Sum>r\<leftarrow>filter (\<lambda>r. month_index (order_date r) = k) rs. sales r),
                    bucket_profit = (\<Sum>r\<leftarrow>filter (\<lambda>r. month_index (order_date r) = k) rs. profit r) \<rparr>)
            [?lo..?hi]"
  proof (rule nth_equalityI)
    show "length (monthly_sales rs) = length (map (\<lambda>k. \<lparr> bucket_label = month_end k,
                    bucket_sales = (\<Sum>r\<leftarrow>filter (\<lambda>r. month_index (order_date r) = k) rs. sales r),
                    bucket_profit = (\<Sum>r\<leftarrow>filter (\<lambda>r. month_index (order_date r) = k) rs. profit r) \<rparr>)
            [?lo..?hi])"
      unfolding ms using len_tot by simp
  next
    fix i assume "i < length (monthly_sales rs)"
    then have i: "i < ?n" unfolding ms using len_tot by simp
    have up: "[?lo..?hi] ! i = ?lo + int i" using i by (simp add: nth_upto)
    have same: "filter (\<lambda>r. nat (month_index (order_date r) - ?lo) = i) rs =
        filter (\<lambda>r. month_index (order_date r) = ?lo + int i) rs"
      by (rule filter_cong) (use lo_le in \<open>auto simp: nat_eq_iff\<close>)
    have tot: "?tot ! i =
        (sum_list (map sales (filter (\<lambda>r. month_index (order_date r) = ?lo + int i) rs)),
         sum_list (map profit (filter (\<lambda>r. month_index (order_date r) = ?lo + int i) rs)))"
    proof -
      have "i < length (replicate ?n (0::rat, 0::rat))" using i by simp
      from nth_foldl_add_to_bin [OF this, of ?lo rs] show ?thesis
        unfolding same using i by simp
    qed
    show "monthly_sales rs ! i = map (\<lambda>k. \<lparr> bucket_label = month_end k,
                    bucket_sales = (\<Sum>r\<leftarrow>filter (\<lambda>r. month_index (order_date r) = k) rs. sales r),
                    bucket_profit = (\<Sum>r\<leftarrow>filter (\<lambda>r. month_index (order_date r) = k) rs. profit r) \<rparr>)
            [?lo..?hi] ! i"
      unfolding ms using i len_tot up tot by simp
  qed
qed

text \<open>Dates of 2023 used in the scenarios below, evaluated.\<close>

lemma midnight_div: "midnight y m d div NS_PER_DAY = days_from_civil y m d"
  by (simp add: midnight_def NS_PER_DAY_def)

lemma day_numbers_2023:
  "days_from_civil 2023 1 1 = 19358"
  "days_from_civil 2023 1 15 = 19372"
  "days_from_civil 2023 1 31 = 19388"
  "days_from_civil 2023 2 1 = 19389"
  "days_from_civil 2023 2 28 = 19416"
  "days_from_civil 2023 3 1 = 19417"
  "days_from_civil 2023 3 2 = 19418"
  "days_from_civil 2023 3 10 = 19426"
  "days_from_civil 2023 3 15 = 19431"
  "days_from_civil 2023 3 31 = 19447"
  "days_from_civil 2023 4 1 = 19448"
  by (simp_all add: days_from_civil_def)

lemma civil_dates_2023:
  "civil_from_days 19372 = (2023, 1, 15)"
  "civil_from_days 19418 = (2023, 3, 2)"
  "civil_from_days 19426 = (2023, 3, 10)"
  "civil_from_days 19431 = (2023, 3, 15)"
  "civil_from_days 19447 = (2023, 3, 31)"
  unfolding civil_from_days_def Let_def by simp_all

lemma month_index_samples:
  "month_index (midnight 2023 1 15) = 24276"
  "month_index (midnight 2023 3 2) = 24278"
  "month_index (midnight 2023 3 10) = 24278"
  "month_index (midnight 2023 3 15) = 24278"
  "month_index (midnight 2023 3 31) = 24278"
  by (simp_all add: month_index_def midnight_div day_numbers_2023 civil_dates_2023)

lemma month_end_samples:
  "month_end 24276 = midnight 2023 1 31"
  "month_end 24277 = midnight 2023 2 28"
  "month_end 24278 = midnight 2023 3 31"
  by (simp_all add: month_end_def midnight_def day_numbers_2023)

lemma sample_row_amounts: "sales sample_row = 0" "profit sample_row = 0"
  by (simp_all add: sample_row_def)


text \<open>
  The scenario of the claim: three rows dated in March 2023 with sales 10, 20 and 30 give
  exactly one bucket, labelled 2023-03-31, with summed sales 60.
\<close>

theorem C3_monthly_buckets_witness:
  "monthly_sales
     [sample_row\<lparr>order_date := midnight 2023 3 15, sales := 10\<rparr>,
      sample_row\<lparr>order_date := midnight 2023 3 2, sales := 20\<rparr>,
      sample_row\<lparr>order_date := midnight 2023 3 31, sales := 30\<rparr>]
   = [\<lparr>bucket_label = midnight 2023 3 31, bucket_sales = 60, bucket_profit = 0\<rparr>]"
  using C3_monthly_buckets
    [of "[sample_row\<lparr>order_date := midnight 2023 3 15, sales := 10\<rparr>,
          sample_row\<lparr>order_date := midnight 2023 3 2, sales := 20\<rparr>,
          sample_row\<lparr>order_date := midnight 2023 3 31, sales := 30\<rparr>]"]
  by (simp add: month_index_samples month_end_samples sample_row_amounts)


text \<open>
  The claim says a bucket is identified by the first day of its month and a month without
  rows is left out. Two rows dated 2023-01-15 and 2023-03-10 give three buckets, labelled
  with the last days of January, February and March, and the February bucket, which no
  row falls into, is there with sum 0.
\<close>

theorem C3_first_day_sparse_counterexample:
  "monthly_sales
     [sample_row\<lparr>order_date := midnight 2023 1 15, sales := 5\<rparr>,
      sample_row\<lparr>order_date := midnight 2023 3 10, sales := 7\<rparr>]
   = [\<lparr>bucket_label = midnight 2023 1 31, bucket_sales = 5, bucket_profit = 0\<rparr>,
      \<lparr>bucket_label = midnight 2023 2 28, bucket_sales = 0, bucket_profit = 0\<rparr>,
      \<lparr>bucket_label = midnight 2023 3 31, bucket_sales = 7, bucket_profit = 0\<rparr>]
   \<and> midnight 2023 1 31 \<noteq> midnight 2023 1 1
   \<and> midnight 2023 2 28 \<noteq> midnight 2023 2 1
   \<and> midnight 2023 3 31 \<noteq> midnight 2023 3 1"
proof -
  let ?rs = "[sample_row\<lparr>order_date := midnight 2023 1 15, sales := 5\<rparr>,
      sample_row\<lparr>order_date := midnight 2023 3 10, sales := 7\<rparr>]"
  have ks: "map month_index (col order_date ?rs) = [24276, 24278]"
    by (simp add: col_def month_index_samples)
  have up: "[24276..24278] = [24276, 24277, 24278::int]"
    by (simp add: upto_rec1)
  have tot: "foldl (add_to_bin 24276) (replicate (nat 3) (0, 0)) ?rs = [(5, 0), (0, 0), (7, 0)]"
    by (simp add: add_to_bin_def month_index_samples sample_row_amounts eval_nat_numeral)
  have "monthly_sales ?rs =
    [\<lparr>bucket_label = midnight 2023 1 31, bucket_sales = 5, bucket_profit = 0\<rparr>,
      \<lparr>bucket_label = midnight 2023 2 28, bucket_sales = 0, bucket_profit = 0\<rparr>,
      \<lparr>bucket_label = midnight 2023 3 31, bucket_sales = 7, bucket_profit = 0\<rparr>]"
    unfolding monthly_sales_def ks
    using up tot by (simp add: month_end_samples)
  moreover have "midnight 2023 1 31 \<noteq> midnight 2023 1 1" "midnight 2023 2 28 \<noteq> midnight 2023 2 1"
    "midnight 2023 3 31 \<noteq> midnight 2023 3 1"
    by (simp_all add: midnight_def day_numbers_2023 NS_PER_DAY_def)
  ultimately show ?thesis by simp
qed

end
